theory Spec2Isabelle
  imports Main "HOL-Library.List_Lexorder" "HOL-Library.Char_ord"
begin

section \<open>Data model\<close>

text \<open>
  ISO timestamps are JavaScript strings, and the source compares them with the
  relational operators of the language, that is lexicographically by code unit.
  They are modelled as \<open>string\<close> with the lexicographic order on character lists
  (for the ASCII characters of an ISO timestamp the two orders agree).

  The declaration of \<open>TaskProps\<close> is not among the sources. The record below has
  the fields that the sources read (\<open>id\<close>, \<open>type\<close>, \<open>scheduled\<close>, \<open>due\<close>,
  \<open>parent\<close>, \<open>children\<close>, \<open>area\<close>, \<open>heading\<close>, \<open>path\<close>,
  \<open>position.start.line\<close>, \<open>completion\<close>) and the \<open>completed\<close> attribute that
  the specification gives a task. An optional field is an \<open>option\<close>.
\<close>

record TaskProps =
  task_id :: string
  task_type :: string
  scheduled :: "string option"
  due :: "string option"
  completed :: bool
  completion :: "string option"
  parent :: "string option"
  children :: "string list"
  area :: string
  heading :: "string option"
  path :: string
  position :: int

record EventProps =
  event_id :: string
  event_startISO :: string
  event_endISO :: string
  title :: string

text \<open>
  A JavaScript object with string keys, as \<open>Record<string, T>\<close> is: an association
  list in the iteration order of its keys, read with \<^const>\<open>map_of\<close>.
\<close>

type_synonym 'v js_record = "(string \<times> 'v) list"

text \<open>Truthiness of an optional string: \<open>undefined\<close> and the empty string are falsy.\<close>

definition truthy :: "string option \<Rightarrow> bool" where
  "truthy v = (case v of None \<Rightarrow> False | Some s \<Rightarrow> s \<noteq> [])"

section \<open>Timeline: the events of a window\<close>

text \<open>
  \<open>now\<close> is \<open>DateTime.now().toISO()\<close>, a parameter of the model. The selector
  keeps the events that overlap the window and have not ended yet.
\<close>

definition Timeline_events ::
  "string \<Rightarrow> string \<Rightarrow> string \<Rightarrow> EventProps js_record \<Rightarrow> EventProps list" where
  "Timeline_events now startISO endISO evs =
     filter (\<lambda>event.
        \<not> (event_endISO event \<le> startISO \<or>
           event_startISO event \<ge> endISO \<or>
           event_endISO event \<le> now))
       (map snd evs)"

text \<open>
  The loop that splits the events. \<open>isDateISO\<close> (services/util) is not among the
  sources; it is a parameter.
\<close>

fun split_events ::
  "(string \<Rightarrow> bool) \<Rightarrow> EventProps list \<Rightarrow> EventProps list \<times> EventProps list
     \<Rightarrow> EventProps list \<times> EventProps list" where
  "split_events isDateISO [] acc = acc"
| "split_events isDateISO (event # rest) (allDayEvents, atTimeEvents) =
     (if isDateISO (event_startISO event)
      then split_events isDateISO rest (allDayEvents @ [event], atTimeEvents)
      else split_events isDateISO rest (allDayEvents, atTimeEvents @ [event]))"

definition allDayEvents ::
  "(string \<Rightarrow> bool) \<Rightarrow> string \<Rightarrow> string \<Rightarrow> string \<Rightarrow> EventProps js_record \<Rightarrow> EventProps list" where
  "allDayEvents isDateISO now startISO endISO evs =
     fst (split_events isDateISO (Timeline_events now startISO endISO evs) ([], []))"

definition atTimeEvents ::
  "(string \<Rightarrow> bool) \<Rightarrow> string \<Rightarrow> string \<Rightarrow> string \<Rightarrow> EventProps js_record \<Rightarrow> EventProps list" where
  "atTimeEvents isDateISO now startISO endISO evs =
     snd (split_events isDateISO (Timeline_events now startISO endISO evs) ([], []))"

section \<open>The store and its setters\<close>

text \<open>
  A JavaScript value, as far as the task records need it, and an object as a map from
  keys to values: a key that is absent is \<open>None\<close>. The spread \<open>{...a, ...b}\<close> is
  \<open>a ++ b\<close>, and \<open>delete o.k\<close> is \<open>o(k := None)\<close>.
\<close>

datatype jsval =
    JUndefined
  | JBool bool
  | JNum int
  | JStr string
  | JArr "jsval list"
  | JObj "(string \<times> jsval) list"

type_synonym jsobj = "string \<rightharpoonup> jsval"

fun js_truthy :: "jsval \<Rightarrow> bool" where
  "js_truthy JUndefined = False"
| "js_truthy (JBool b) = b"
| "js_truthy (JNum n) = (n \<noteq> 0)"
| "js_truthy (JStr s) = (s \<noteq> [])"
| "js_truthy (JArr xs) = True"
| "js_truthy (JObj kvs) = True"

text \<open>Reading a property: an absent key reads as \<open>undefined\<close>.\<close>

definition get_prop :: "jsobj \<Rightarrow> string \<Rightarrow> jsval" where
  "get_prop obj k = (case obj k of None \<Rightarrow> JUndefined | Some v \<Rightarrow> v)"

definition opt_field :: "string \<Rightarrow> string option \<Rightarrow> (string \<times> jsval) list" where
  "opt_field k v = (case v of None \<Rightarrow> [] | Some s \<Rightarrow> [(k, JStr s)])"

text \<open>The own properties of a task record, which a spread copies.\<close>

definition spread :: "TaskProps \<Rightarrow> jsobj" where
  "spread task = map_of
     ([(''id'', JStr (task_id task)),
       (''type'', JStr (task_type task)),
       (''completed'', JBool (completed task)),
       (''children'', JArr (map JStr (children task))),
       (''area'', JStr (area task)),
       (''path'', JStr (path task)),
       (''position'', JObj [(''start'', JObj [(''line'', JNum (position task))])])]
      @ opt_field ''scheduled'' (scheduled task)
      @ opt_field ''due'' (due task)
      @ opt_field ''completion'' (completion task)
      @ opt_field ''parent'' (parent task)
      @ opt_field ''heading'' (heading task))"

text \<open>
  The Obsidian collaborator. Of \<open>saveTask\<close> the store sees only whether the promise
  resolves (\<open>True\<close>) or rejects (\<open>False\<close>); what it writes is outside the sources.
\<close>

record ObsidianAPI =
  saveTask :: "jsobj \<Rightarrow> bool"

typedecl CalendarAPI

record apis_record =
  obsidian :: "ObsidianAPI option"
  calendar :: "CalendarAPI option"

datatype ViewMode = All | Scheduled | Due | Unscheduled | Priority | Headings

text \<open>
  \<open>AppState\<close>. The declaration of \<open>DragData\<close> is not among the sources: the state is
  generic in the type \<open>'d\<close> of the drag payload, and \<open>dragData\<close> is \<open>null\<close> or a
  payload. \<open>false | T\<close> is an \<open>option\<close>.
\<close>

record 'd AppState =
  tasks :: "TaskProps js_record"
  events :: "EventProps js_record"
  apis :: apis_record
  dragData :: "'d option"
  findingTask :: "string option"
  inScroll :: int
  searchStatus :: "ViewMode option"
  calendarMode :: bool
  dailyNoteFormat :: string
  dailyNotePath :: string
  fileOrder :: "string list"
  newTask :: "jsobj option"
  dayStartEnd :: "int \<times> int"
  hideHeadings :: bool
  muted :: bool
  twentyFourHourFormat :: bool
  collapsed :: "bool js_record"

text \<open>
  \<open>Partial<AppState>\<close>: an object literal with some of the keys of the state, as the
  list of its properties. \<open>Object.assign\<close> writes them one after the other.
\<close>

datatype 'd AppState_property =
    P_tasks "TaskProps js_record"
  | P_events "EventProps js_record"
  | P_apis apis_record
  | P_dragData "'d option"
  | P_findingTask "string option"
  | P_inScroll int
  | P_searchStatus "ViewMode option"
  | P_calendarMode bool
  | P_dailyNoteFormat string
  | P_dailyNotePath string
  | P_fileOrder "string list"
  | P_newTask "jsobj option"
  | P_dayStartEnd "int \<times> int"
  | P_hideHeadings bool
  | P_muted bool
  | P_twentyFourHourFormat bool
  | P_collapsed "bool js_record"

fun assign_property :: "'d AppState_property \<Rightarrow> 'd AppState \<Rightarrow> 'd AppState" where
  "assign_property (P_tasks v) state = state\<lparr>tasks := v\<rparr>"
| "assign_property (P_events v) state = state\<lparr>events := v\<rparr>"
| "assign_property (P_apis v) state = state\<lparr>apis := v\<rparr>"
| "assign_property (P_dragData v) state = state\<lparr>dragData := v\<rparr>"
| "assign_property (P_findingTask v) state = state\<lparr>findingTask := v\<rparr>"
| "assign_property (P_inScroll v) state = state\<lparr>inScroll := v\<rparr>"
| "assign_property (P_searchStatus v) state = state\<lparr>searchStatus := v\<rparr>"
| "assign_property (P_calendarMode v) state = state\<lparr>calendarMode := v\<rparr>"
| "assign_property (P_dailyNoteFormat v) state = state\<lparr>dailyNoteFormat := v\<rparr>"
| "assign_property (P_dailyNotePath v) state = state\<lparr>dailyNotePath := v\<rparr>"
| "assign_property (P_fileOrder v) state = state\<lparr>fileOrder := v\<rparr>"
| "assign_property (P_newTask v) state = state\<lparr>newTask := v\<rparr>"
| "assign_property (P_dayStartEnd v) state = state\<lparr>dayStartEnd := v\<rparr>"
| "assign_property (P_hideHeadings v) state = state\<lparr>hideHeadings := v\<rparr>"
| "assign_property (P_muted v) state = state\<lparr>muted := v\<rparr>"
| "assign_property (P_twentyFourHourFormat v) state = state\<lparr>twentyFourHourFormat := v\<rparr>"
| "assign_property (P_collapsed v) state = state\<lparr>collapsed := v\<rparr>"

text \<open>
  What the handlers act on: the store, and the calls made to the collaborator so far
  (the records passed to \<open>saveTask\<close>, in order, and the number of \<open>playComplete\<close>
  calls).
\<close>

record 'd World =
  store :: "'d AppState"
  saveTask_calls :: "jsobj list"
  playComplete_calls :: nat

text \<open>
  \<open>modify\<close> is \<open>useAppStore.setState(produce(modifier))\<close>. The modifiers of the
  store leave the draft alone and return an object, so \<open>produce\<close> hands that object
  on, and \<open>setState\<close> merges it into the state with \<open>Object.assign({}, state, next)\<close>.
\<close>

definition modify :: "('d AppState \<Rightarrow> 'd AppState_property list) \<Rightarrow> 'd World \<Rightarrow> 'd World" where
  "modify modifier w = w\<lparr>store := fold assign_property (modifier (store w)) (store w)\<rparr>"

definition setters_set :: "'d AppState_property list \<Rightarrow> 'd World \<Rightarrow> 'd World" where
  "setters_set newState = modify (\<lambda>_. newState)"

definition getTask :: "'d World \<Rightarrow> string \<Rightarrow> TaskProps option" where
  "getTask w id' = map_of (tasks (store w)) id'"

definition getObsidianAPI :: "'d World \<Rightarrow> ObsidianAPI option" where
  "getObsidianAPI w = obsidian (apis (store w))"

text \<open>The handler that \<open>App\<close> gives to \<open>DndContext\<close> as \<open>onDragCancel\<close>.\<close>

definition onDragCancel :: "'d World \<Rightarrow> 'd World" where
  "onDragCancel = setters_set [P_dragData None]"

text \<open>
  \<open>setters.patchTasks\<close>. The enum \<open>TaskActions\<close> (types/enums) is not among the
  sources, so its member \<open>DELETE\<close> is a parameter, the sentinel string. An exception
  is a value: \<open>TypeError\<close> when a method is called on an API that is not in the store,
  \<open>SaveRejected id\<close> when the promise of \<open>saveTask\<close> rejects while \<open>id\<close> is
  processed (the \<open>await\<close> throws, and nothing catches it), \<open>InvariantFailed\<close> for a
  failed \<open>invariant\<close>.
\<close>

datatype error = InvariantFailed | TypeError | SaveRejected string

definition savedTask :: "string \<Rightarrow> 'd World \<Rightarrow> jsobj \<Rightarrow> string \<Rightarrow> jsobj" where
  "savedTask DELETE w task id' =
     (let merged = (case getTask w id' of None \<Rightarrow> Map.empty | Some t \<Rightarrow> spread t) ++ task
      in if get_prop task ''scheduled'' = JStr DELETE
         then merged(''scheduled'' := None) else merged)"

fun patchTasks_loop ::
  "string \<Rightarrow> ObsidianAPI option \<Rightarrow> jsobj \<Rightarrow> string list \<Rightarrow> 'd World
     \<Rightarrow> (error + unit) \<times> 'd World" where
  "patchTasks_loop DELETE obsidianAPI task [] w = (Inr (), w)"
| "patchTasks_loop DELETE obsidianAPI task (id' # ids) w =
     (let saved = savedTask DELETE w task id' in
      case obsidianAPI of
        None \<Rightarrow> (Inl TypeError, w)
      | Some api \<Rightarrow>
          let w' = w\<lparr>saveTask_calls := saveTask_calls w @ [saved]\<rparr> in
          if saveTask api saved
          then patchTasks_loop DELETE obsidianAPI task ids w'
          else (Inl (SaveRejected id'), w'))"

definition patchTasks ::
  "string \<Rightarrow> string list \<Rightarrow> jsobj \<Rightarrow> 'd World \<Rightarrow> (error + unit) \<times> 'd World" where
  "patchTasks DELETE ids task w =
     (let obsidianAPI = getObsidianAPI w in
      case patchTasks_loop DELETE obsidianAPI task ids w of
        (Inl err, w') \<Rightarrow> (Inl err, w')
      | (Inr u, w') \<Rightarrow>
          if js_truthy (get_prop task ''completion'')
          then (case obsidianAPI of
                  None \<Rightarrow> (Inl TypeError, w')
                | Some api \<Rightarrow> (Inr (), w'\<lparr>playComplete_calls := Suc (playComplete_calls w')\<rparr>))
          else (Inr (), w'))"

section \<open>The drag gesture\<close>

text \<open>
  Modelled from the spec: \<open>onDragStart\<close> (services/dragging) is not among the
  sources. In the specification's words, the gesture start records the drag payload
  into the single drag slot of the store; a write of the slot replaces its whole value,
  which is what \<open>setters.set\<close> does.
\<close>

definition onDragStart :: "'d \<Rightarrow> 'd World \<Rightarrow> 'd World" where
  "onDragStart payload = setters_set [P_dragData (Some payload)]"

text \<open>
  Modelled from the spec: \<open>onDragEnd\<close> (services/dragging) is not among the
  sources. In the specification's words, a drop outside any zone clears the drag slot
  with no mutation; a release over a drop zone is resolved into the mutation for that
  zone, and the drag slot is cleared unconditionally at the end of every drag,
  whichever branch was taken. \<open>over\<close> is the drop zone under the pointer at the
  release, or \<open>null\<close>. What the resolution of a zone computes and writes is not
  part of the cancellation: it is the parameter \<open>resolved\<close>.
\<close>

definition onDragEnd ::
  "('z \<Rightarrow> 'd World \<Rightarrow> (error + unit) \<times> 'd World) \<Rightarrow> 'z option \<Rightarrow> 'd World
     \<Rightarrow> (error + unit) \<times> 'd World" where
  "onDragEnd resolved over w =
     (case over of
        None \<Rightarrow> (Inr (), setters_set [P_dragData None] w)
      | Some zone \<Rightarrow>
          (case resolved zone w of
             (r, w') \<Rightarrow> (r, setters_set [P_dragData None] w')))"

text \<open>
  How a gesture ends: by a cancel signal from outside, or by a release of the pointer
  over a drop zone or over none.
\<close>

datatype 'z gesture_end = CancelSignal | Release "'z option"

text \<open>
  A whole gesture, as \<open>App\<close> wires it into \<open>DndContext\<close>: \<open>onDragStart\<close> at
  the start, then \<open>onDragCancel\<close> at a cancel signal and \<open>onDragEnd\<close> at a
  release. \<open>App\<close> gives \<open>DndContext\<close> no handler for the moves of the pointer
  in between, so nothing of the store runs there. The world before the gesture is the
  pre-drag snapshot.
\<close>

definition DndContext_gesture ::
  "('z \<Rightarrow> 'd World \<Rightarrow> (error + unit) \<times> 'd World) \<Rightarrow> 'd \<Rightarrow> 'z gesture_end \<Rightarrow> 'd World
     \<Rightarrow> (error + unit) \<times> 'd World" where
  "DndContext_gesture resolved payload ending w =
     (let dragging = onDragStart payload w in
      case ending of
        CancelSignal \<Rightarrow> (Inr (), onDragCancel dragging)
      | Release over \<Rightarrow> onDragEnd resolved over dragging)"

section \<open>Timeline: the tasks of a window\<close>

text \<open>
  \<open>isCompleted\<close> (services/util) is not among the sources; it is a parameter of
  the definitions below, a test on a task. \<open>today\<close> is
  \<open>DateTime.now().toISODate()\<close>, a parameter as well.
\<close>

definition isToday :: "string \<Rightarrow> string \<Rightarrow> bool" where
  "isToday today startISO = (take 10 startISO = today)"

definition scheduledForToday :: "(TaskProps \<Rightarrow> bool) \<Rightarrow> string \<Rightarrow> string \<Rightarrow> string \<Rightarrow> TaskProps \<Rightarrow> bool" where
  "scheduledForToday isCompleted today startISO endISO task =
     (\<not> isCompleted task \<and>
      (case scheduled task of
         None \<Rightarrow> False
       | Some s \<Rightarrow> s \<noteq> [] \<and> s < endISO \<and> (isToday today startISO \<or> s \<ge> startISO)))"

text \<open>The test on \<open>task.due\<close> in the condition of the due branch.\<close>

definition dueOverlapsWindow :: "string \<Rightarrow> string \<Rightarrow> string \<Rightarrow> string \<Rightarrow> bool" where
  "dueOverlapsWindow today startISO endISO d =
     (d \<ge> startISO \<or> (isToday today startISO \<and> d < endISO))"

type_synonym buckets = "TaskProps list \<times> TaskProps list \<times> TaskProps list"

text \<open>
  The body of the \<open>forEach\<close>; the accumulator is \<open>(tasks, dueTasks, allDayTasks)\<close>
  and \<open>push\<close> appends.
\<close>

definition classify_task ::
  "(TaskProps \<Rightarrow> bool) \<Rightarrow> string \<Rightarrow> string \<Rightarrow> string \<Rightarrow> TaskProps \<Rightarrow> buckets \<Rightarrow> error + buckets" where
  "classify_task isCompleted today startISO endISO task acc =
     (case acc of (timeTasks, dueTasks, allDayTasks) \<Rightarrow>
        if \<not> scheduledForToday isCompleted today startISO endISO task \<and>
           (case due task of
              None \<Rightarrow> False
            | Some d \<Rightarrow> d \<noteq> [] \<and> \<not> isCompleted task \<and>
                dueOverlapsWindow today startISO endISO d \<and>
                (case scheduled task of None \<Rightarrow> True | Some s \<Rightarrow> s = [] \<or> s < endISO))
        then Inr (timeTasks, dueTasks @ [task], allDayTasks)
        else if scheduledForToday isCompleted today startISO endISO task
        then (case scheduled task of
                None \<Rightarrow> Inl InvariantFailed
              | Some s \<Rightarrow>
                  if s = [] then Inl InvariantFailed
                  else if s > startISO
                  then Inr (timeTasks @ [task], dueTasks, allDayTasks)
                  else Inr (timeTasks, dueTasks, allDayTasks @ [task]))
        else Inr acc)"

fun forEach_tasks ::
  "(TaskProps \<Rightarrow> bool) \<Rightarrow> string \<Rightarrow> string \<Rightarrow> string \<Rightarrow> TaskProps list \<Rightarrow> buckets \<Rightarrow> error + buckets" where
  "forEach_tasks isCompleted today startISO endISO [] acc = Inr acc"
| "forEach_tasks isCompleted today startISO endISO (task # rest) acc =
     (case classify_task isCompleted today startISO endISO task acc of
        Inl err \<Rightarrow> Inl err
      | Inr acc' \<Rightarrow> forEach_tasks isCompleted today startISO endISO rest acc')"

text \<open>The classification alone: the three lists when the \<open>forEach\<close> is done.\<close>

definition classified ::
  "(TaskProps \<Rightarrow> bool) \<Rightarrow> string \<Rightarrow> string \<Rightarrow> string \<Rightarrow> 'd AppState \<Rightarrow> error + buckets" where
  "classified isCompleted today startISO endISO state =
     forEach_tasks isCompleted today startISO endISO (map snd (tasks state)) ([], [], [])"

text \<open>
  One step up the hierarchy: from the id of a task to the \<open>parent\<close> id of its
  record in the task table, if the table has the task and the task has a parent.
\<close>

definition parentOf :: "TaskProps js_record \<Rightarrow> string option \<Rightarrow> string option" where
  "parentOf tbl p =
     (case p of
        None \<Rightarrow> None
      | Some q \<Rightarrow> (case map_of tbl q of None \<Rightarrow> None | Some pt \<Rightarrow> parent pt))"

text \<open>
  The ancestor chain of a task, through parent ids: its parent is the ancestor at
  \<open>0\<close>, the parent of that one the ancestor at \<open>1\<close>, and so on.
\<close>

definition ancestorAt :: "TaskProps js_record \<Rightarrow> TaskProps \<Rightarrow> nat \<Rightarrow> string option" where
  "ancestorAt tbl task k = (parentOf tbl ^^ k) (parent task)"

text \<open>The first \<open>n\<close> ids of the chain that starts at a parent id.\<close>

fun ancestorChain :: "TaskProps js_record \<Rightarrow> nat \<Rightarrow> string option \<Rightarrow> string list" where
  "ancestorChain tbl 0 p = []"
| "ancestorChain tbl (Suc n) None = []"
| "ancestorChain tbl (Suc n) (Some pid) = pid # ancestorChain tbl n (parentOf tbl (Some pid))"

text \<open>
  Modelled from the spec: \<open>removeNestedChildren\<close> (services/util) is not among the
  sources. In the specification's words, it prunes from the list every item whose id
  equals the given id, and every item whose ancestor chain reaches it. The chain is
  followed through the task table of the store, which the source reaches through its
  getters; the chain is cut after one more id than the table has entries, where it can
  only repeat itself.
\<close>

definition removeNestedChildren ::
  "TaskProps js_record \<Rightarrow> string \<Rightarrow> TaskProps list \<Rightarrow> TaskProps list" where
  "removeNestedChildren tbl id' taskList =
     filter (\<lambda>t. \<not> (task_id t = id' \<or>
                     id' \<in> set (ancestorChain tbl (Suc (length tbl)) (parent t))))
       taskList"

definition Timeline_tasks ::
  "(TaskProps \<Rightarrow> bool) \<Rightarrow> string \<Rightarrow> string \<Rightarrow> string \<Rightarrow> 'd AppState \<Rightarrow> error + buckets" where
  "Timeline_tasks isCompleted today startISO endISO state =
     (case classified isCompleted today startISO endISO state of
        Inl err \<Rightarrow> Inl err
      | Inr (timeTasks, dueTasks, allDayTasks) \<Rightarrow>
          let scheduledParents = map task_id timeTasks in
          Inr (timeTasks, dueTasks,
               fold (removeNestedChildren (tasks state)) scheduledParents allDayTasks))"

text \<open>
  The three branches of the \<open>forEach\<close> as predicates on a task: the condition under
  which the body pushes the task to \<open>tasks\<close>, to \<open>dueTasks\<close> and to
  \<open>allDayTasks\<close>.
\<close>

definition pushedToTasks :: "(TaskProps \<Rightarrow> bool) \<Rightarrow> string \<Rightarrow> string \<Rightarrow> string \<Rightarrow> TaskProps \<Rightarrow> bool" where
  "pushedToTasks isCompleted today startISO endISO task =
     (scheduledForToday isCompleted today startISO endISO task \<and>
      (case scheduled task of None \<Rightarrow> False | Some s \<Rightarrow> s > startISO))"

definition pushedToAllDay :: "(TaskProps \<Rightarrow> bool) \<Rightarrow> string \<Rightarrow> string \<Rightarrow> string \<Rightarrow> TaskProps \<Rightarrow> bool" where
  "pushedToAllDay isCompleted today startISO endISO task =
     (scheduledForToday isCompleted today startISO endISO task \<and>
      (case scheduled task of None \<Rightarrow> False | Some s \<Rightarrow> \<not> s > startISO))"

definition pushedToDue :: "(TaskProps \<Rightarrow> bool) \<Rightarrow> string \<Rightarrow> string \<Rightarrow> string \<Rightarrow> TaskProps \<Rightarrow> bool" where
  "pushedToDue isCompleted today startISO endISO task =
     (\<not> scheduledForToday isCompleted today startISO endISO task \<and>
      (case due task of
         None \<Rightarrow> False
       | Some d \<Rightarrow> d \<noteq> [] \<and> \<not> isCompleted task \<and>
           dueOverlapsWindow today startISO endISO d \<and>
           (case scheduled task of None \<Rightarrow> True | Some s \<Rightarrow> s = [] \<or> s < endISO)))"

section \<open>Group at the heading level\<close>

text \<open>
  What a task of a heading-level group is rendered as; the element is given by its
  component and the id of the task. \<open>block_scheduled\<close> is the \<open>scheduled\<close> property
  of the group, a string or \<open>null\<close>.
\<close>

datatype element = TaskLink string | Task string

definition rendersAsLink :: "string option \<Rightarrow> TaskProps \<Rightarrow> bool" where
  "rendersAsLink block_scheduled task =
     (task_type task \<in> set [''parent'', ''link''] \<or>
      (case scheduled task of
         None \<Rightarrow> False
       | Some ts \<Rightarrow> ts \<noteq> [] \<and>
           (case block_scheduled of None \<Rightarrow> True | Some bs \<Rightarrow> bs = [] \<or> ts > bs)))"

definition Group_heading :: "string option \<Rightarrow> TaskProps list \<Rightarrow> element list" where
  "Group_heading block_scheduled taskList =
     map (\<lambda>task. if rendersAsLink block_scheduled task
                  then TaskLink (task_id task) else Task (task_id task))
       taskList"

text \<open>
  The rule of the specification, in its words, to compare with \<^const>\<open>rendersAsLink\<close>:
  the kind is "parent" or "link", or the item carries a \<open>scheduled\<close> value strictly
  greater than the nominal scheduled time of the block.
\<close>

definition spec_rendersAsLink :: "string option \<Rightarrow> TaskProps \<Rightarrow> bool" where
  "spec_rendersAsLink block_scheduled task =
     (task_type task = ''parent'' \<or> task_type task = ''link'' \<or>
      (case scheduled task of
         None \<Rightarrow> False
       | Some ts \<Rightarrow> (case block_scheduled of None \<Rightarrow> False | Some bs \<Rightarrow> ts > bs)))"

section \<open>Example data\<close>

definition ex_task ::
  "string \<Rightarrow> string option \<Rightarrow> string option \<Rightarrow> bool \<Rightarrow> string option \<Rightarrow> TaskProps" where
  "ex_task i s d c p =
     \<lparr>task_id = i, task_type = ''task'', scheduled = s, due = d, completed = c,
      completion = None, parent = p, children = [], area = ''notes'', heading = None,
      path = ''notes.md'', position = 0\<rparr>"

definition ex_state :: "TaskProps list \<Rightarrow> ObsidianAPI option \<Rightarrow> string option \<Rightarrow> string AppState" where
  "ex_state ts api drag =
     \<lparr>tasks = map (\<lambda>t. (task_id t, t)) ts, events = [],
      apis = \<lparr>obsidian = api, calendar = None\<rparr>, dragData = drag, findingTask = None,
      inScroll = 0, searchStatus = None, calendarMode = False,
      dailyNoteFormat = ''YYYY-MM-DD'', dailyNotePath = [], fileOrder = [],
      newTask = None, dayStartEnd = (0, 24), hideHeadings = False, muted = False,
      twentyFourHourFormat = False, collapsed = []\<rparr>"

definition ex_event :: EventProps where
  "ex_event =
     \<lparr>event_id = ''e1'', event_startISO = ''2024-01-01T09:00'',
      event_endISO = ''2024-01-01T10:00'', title = ''standup''\<rparr>"

text \<open>A collaborator that rejects the write of the record with a given id, and no other.\<close>

definition ex_api :: "string \<Rightarrow> ObsidianAPI" where
  "ex_api bad = \<lparr>saveTask = (\<lambda>obj. get_prop obj ''id'' \<noteq> JStr bad)\<rparr>"

definition ex_world :: "TaskProps list \<Rightarrow> ObsidianAPI option \<Rightarrow> string option \<Rightarrow> string World" where
  "ex_world ts api drag =
     \<lparr>store = ex_state ts api drag, saveTask_calls = [], playComplete_calls = 0\<rparr>"

definition ex_patch :: jsobj where
  "ex_patch = [''scheduled'' \<mapsto> JStr ''2024-01-02'']"

text \<open>The \<open>id\<close> property of each record passed to \<open>saveTask\<close>, in order.\<close>

definition saved_ids :: "'d World \<Rightarrow> jsval list" where
  "saved_ids w = map (\<lambda>obj. get_prop obj ''id'') (saveTask_calls w)"

section \<open>Events that have ended\<close>

lemma split_events_eq:
  "split_events isDateISO evs (a, b) =
     (a @ filter (\<lambda>ev. isDateISO (event_startISO ev)) evs,
      b @ filter (\<lambda>ev. \<not> isDateISO (event_startISO ev)) evs)"
  by (induction evs arbitrary: a b) simp_all

lemma ended_not_selected:
  "event_endISO ev \<le> now \<Longrightarrow> ev \<notin> set (Timeline_events now startISO endISO evs)"
  by (simp add: Timeline_events_def)

text \<open>
  C10. An event whose \<open>endISO\<close> is at or before the current time is in neither the
  all-day nor the timed events of any window, whatever the window, the store and the
  date test are.
\<close>

theorem ended_event_excluded:
  "event_endISO ev \<le> now \<Longrightarrow>
     ev \<notin> set (allDayEvents isDateISO now startISO endISO evs) \<and>
     ev \<notin> set (atTimeEvents isDateISO now startISO endISO evs)"
  using ended_not_selected [of ev now startISO endISO evs]
  by (simp add: allDayEvents_def atTimeEvents_def split_events_eq)

theorem ended_event_excluded_witness:
  "event_endISO ex_event \<le> ''2024-01-01T12:00:00.000+00:00'' \<and>
   \<not> (event_endISO ex_event \<le> ''2024-01-01'' \<or> event_startISO ex_event \<ge> ''2024-01-02'') \<and>
   ex_event \<notin> set (allDayEvents (\<lambda>s. length s = 10) ''2024-01-01T12:00:00.000+00:00''
      ''2024-01-01'' ''2024-01-02'' [(''e1'', ex_event)]) \<and>
   ex_event \<notin> set (atTimeEvents (\<lambda>s. length s = 10) ''2024-01-01T12:00:00.000+00:00''
      ''2024-01-01'' ''2024-01-02'' [(''e1'', ex_event)])"
  using ended_event_excluded [where ev = ex_event and now = "''2024-01-01T12:00:00.000+00:00''"
      and isDateISO = "\<lambda>s. length s = 10" and startISO = "''2024-01-01''"
      and endISO = "''2024-01-02''" and evs = "[(''e1'', ex_event)]"]
  by (simp add: ex_event_def)

section \<open>The three lists of the Timeline\<close>

lemma classify_task_eq:
  "classify_task isCompleted today s e t (a, b, c) =
     Inr (a @ filter (pushedToTasks isCompleted today s e) [t],
          b @ filter (pushedToDue isCompleted today s e) [t],
          c @ filter (pushedToAllDay isCompleted today s e) [t])"
  by (auto simp: classify_task_def scheduledForToday_def pushedToTasks_def
        pushedToDue_def pushedToAllDay_def split: option.splits)

text \<open>The loop never fails its \<open>invariant\<close>, and each list is a filter of the table.\<close>

lemma forEach_tasks_eq:
  "forEach_tasks isCompleted today s e ts (a, b, c) =
     Inr (a @ filter (pushedToTasks isCompleted today s e) ts,
          b @ filter (pushedToDue isCompleted today s e) ts,
          c @ filter (pushedToAllDay isCompleted today s e) ts)"
proof (induction ts arbitrary: a b c)
  case Nil
  then show ?case by simp
next
  case (Cons t ts)
  show ?case
    by (simp only: forEach_tasks.simps classify_task_eq sum.case Cons.IH) simp
qed

lemma classified_eq:
  "classified isCompleted today s e state =
     Inr (filter (pushedToTasks isCompleted today s e) (map snd (tasks state)),
          filter (pushedToDue isCompleted today s e) (map snd (tasks state)),
          filter (pushedToAllDay isCompleted today s e) (map snd (tasks state)))"
  by (simp add: classified_def forEach_tasks_eq)

lemma removeNestedChildren_subset:
  "set (fold (removeNestedChildren tbl) ids xs) \<subseteq> set xs"
proof (induction ids arbitrary: xs)
  case Nil
  then show ?case by simp
next
  case (Cons i ids)
  have "set (fold (removeNestedChildren tbl) ids (removeNestedChildren tbl i xs))
          \<subseteq> set (removeNestedChildren tbl i xs)"
    by (rule Cons.IH)
  also have "\<dots> \<subseteq> set xs"
    by (simp add: removeNestedChildren_def)
  finally show ?case by simp
qed

lemma Timeline_tasks_eq:
  "Timeline_tasks isCompleted today s e state =
     Inr (filter (pushedToTasks isCompleted today s e) (map snd (tasks state)),
          filter (pushedToDue isCompleted today s e) (map snd (tasks state)),
          fold (removeNestedChildren (tasks state))
            (map task_id (filter (pushedToTasks isCompleted today s e) (map snd (tasks state))))
            (filter (pushedToAllDay isCompleted today s e) (map snd (tasks state))))"
  by (simp add: Timeline_tasks_def classified_eq)




text \<open>
  C4. A completed task, that is one of which \<open>isCompleted\<close> holds, is in none of
  the three lists that the Timeline returns for a window: not in the timed tasks, not in
  the due tasks, not in the all-day tasks. The Timeline does return the lists, for
  every window and every store.
\<close>

theorem completed_excluded:
  "isCompleted t \<Longrightarrow>
     \<exists>timeTasks dueTasks allDayTasks.
       Timeline_tasks isCompleted today startISO endISO state = Inr (timeTasks, dueTasks, allDayTasks) \<and>
       t \<notin> set timeTasks \<and> t \<notin> set dueTasks \<and> t \<notin> set allDayTasks"
proof -
  assume c: "isCompleted t"
  let ?vals = "map snd (tasks state)"
  let ?ad = "fold (removeNestedChildren (tasks state))
            (map task_id (filter (pushedToTasks isCompleted today startISO endISO) ?vals))
            (filter (pushedToAllDay isCompleted today startISO endISO) ?vals)"
  have 1: "\<not> pushedToTasks isCompleted today startISO endISO t"
    using c by (simp add: pushedToTasks_def scheduledForToday_def)
  have 2: "\<not> pushedToDue isCompleted today startISO endISO t"
    using c by (simp add: pushedToDue_def split: option.splits)
  have 3: "\<not> pushedToAllDay isCompleted today startISO endISO t"
    using c by (simp add: pushedToAllDay_def scheduledForToday_def)
  have "t \<notin> set (filter (pushedToAllDay isCompleted today startISO endISO) ?vals)"
    using 3 by simp
  then have 4: "t \<notin> set ?ad"
    using removeNestedChildren_subset by blast
  show ?thesis
    unfolding Timeline_tasks_eq using 1 2 4 by simp
qed


theorem completed_excluded_witness:
  "completed (ex_task ''a'' (Some ''2024-01-01T09:00'') (Some ''2024-01-01'') True None) \<and>
   (\<exists>timeTasks dueTasks allDayTasks.
       Timeline_tasks completed ''2024-01-01'' ''2024-01-01'' ''2024-01-02''
          (ex_state [ex_task ''a'' (Some ''2024-01-01T09:00'') (Some ''2024-01-01'') True None] None None)
         = Inr (timeTasks, dueTasks, allDayTasks) \<and>
       ex_task ''a'' (Some ''2024-01-01T09:00'') (Some ''2024-01-01'') True None \<notin> set timeTasks \<and>
       ex_task ''a'' (Some ''2024-01-01T09:00'') (Some ''2024-01-01'') True None \<notin> set dueTasks \<and>
       ex_task ''a'' (Some ''2024-01-01T09:00'') (Some ''2024-01-01'') True None \<notin> set allDayTasks)"
  using completed_excluded [where isCompleted = completed and t = "ex_task ''a'' (Some ''2024-01-01T09:00'') (Some ''2024-01-01'') True None"
      and today = "''2024-01-01''" and startISO = "''2024-01-01''" and endISO = "''2024-01-02''"
      and state = "ex_state [ex_task ''a'' (Some ''2024-01-01T09:00'') (Some ''2024-01-01'') True None] None None"]
  by (simp add: ex_task_def)

text \<open>
  C5, as stated, fails: the due branch has one more condition, on \<open>scheduled\<close>. A
  task that is not completed, is scheduled after the window (so not for it) and is due
  inside the window is in no list.
\<close>

theorem due_counterexample:
  "\<not> completed (ex_task ''e'' (Some ''2024-01-05'') (Some ''2024-01-02'') False None) \<and>
   \<not> scheduledForToday completed ''2024-01-01'' ''2024-01-02'' ''2024-01-03''
       (ex_task ''e'' (Some ''2024-01-05'') (Some ''2024-01-02'') False None) \<and>
   dueOverlapsWindow ''2024-01-01'' ''2024-01-02'' ''2024-01-03'' ''2024-01-02'' \<and>
   Timeline_tasks completed ''2024-01-01'' ''2024-01-02'' ''2024-01-03''
       (ex_state [ex_task ''e'' (Some ''2024-01-05'') (Some ''2024-01-02'') False None] None None)
     = Inr ([], [], [])"
  by (simp add: Timeline_tasks_def classified_def classify_task_def scheduledForToday_def
      dueOverlapsWindow_def isToday_def ex_task_def ex_state_def)

text \<open>
  C5, amended. A task of the store that is not completed, is not scheduled for the
  window, has a \<open>due\<close> value that passes the window-overlap test, and whose
  \<open>scheduled\<close> value is unset or less than \<open>endISO\<close>, is in the due list. A
  task whose \<open>scheduled\<close> value lies inside the window is never in the due list,
  and, when it is not completed, the classification puts it in the timed or the all-day
  list.
\<close>

theorem due_or_scheduled:
  "t \<in> snd ` set (tasks state) \<Longrightarrow>
   \<exists>timeTasks dueTasks allDayTasks pruned.
      classified isCompleted today startISO endISO state = Inr (timeTasks, dueTasks, allDayTasks) \<and>
      Timeline_tasks isCompleted today startISO endISO state = Inr (timeTasks, dueTasks, pruned) \<and>
      (\<not> isCompleted t \<and> \<not> scheduledForToday isCompleted today startISO endISO t \<and>
       (\<exists>d. due t = Some d \<and> d \<noteq> [] \<and> dueOverlapsWindow today startISO endISO d) \<and>
       (\<forall>v. scheduled t = Some v \<longrightarrow> v = [] \<or> v < endISO)
         \<longrightarrow> t \<in> set dueTasks) \<and>
      ((\<exists>v. scheduled t = Some v \<and> v \<noteq> [] \<and> startISO \<le> v \<and> v < endISO)
         \<longrightarrow> t \<notin> set dueTasks \<and>
             (\<not> isCompleted t \<longrightarrow> t \<in> set timeTasks \<or> t \<in> set allDayTasks))"
proof -
  assume mem: "t \<in> snd ` set (tasks state)"
  let ?vals = "map snd (tasks state)"
  let ?tt = "filter (pushedToTasks isCompleted today startISO endISO) ?vals"
  let ?dt = "filter (pushedToDue isCompleted today startISO endISO) ?vals"
  let ?ad = "filter (pushedToAllDay isCompleted today startISO endISO) ?vals"
  let ?pr = "fold (removeNestedChildren (tasks state)) (map task_id ?tt) ?ad"
  have memv: "t \<in> set ?vals"
    using mem by simp
  have cl: "classified isCompleted today startISO endISO state = Inr (?tt, ?dt, ?ad)"
    by (rule classified_eq)
  have tl: "Timeline_tasks isCompleted today startISO endISO state = Inr (?tt, ?dt, ?pr)"
    by (rule Timeline_tasks_eq)
  have a: "\<not> isCompleted t \<and> \<not> scheduledForToday isCompleted today startISO endISO t \<and>
       (\<exists>d. due t = Some d \<and> d \<noteq> [] \<and> dueOverlapsWindow today startISO endISO d) \<and>
       (\<forall>v. scheduled t = Some v \<longrightarrow> v = [] \<or> v < endISO)
         \<longrightarrow> t \<in> set ?dt"
    using memv by (auto simp: pushedToDue_def split: option.splits)
  have b: "(\<exists>v. scheduled t = Some v \<and> v \<noteq> [] \<and> startISO \<le> v \<and> v < endISO)
         \<longrightarrow> t \<notin> set ?dt \<and> (\<not> isCompleted t \<longrightarrow> t \<in> set ?tt \<or> t \<in> set ?ad)"
    using memv
    by (auto simp: pushedToDue_def pushedToTasks_def pushedToAllDay_def
          scheduledForToday_def split: option.splits)
  have "classified isCompleted today startISO endISO state = Inr (?tt, ?dt, ?ad) \<and>
      Timeline_tasks isCompleted today startISO endISO state = Inr (?tt, ?dt, ?pr) \<and>
      (\<not> isCompleted t \<and> \<not> scheduledForToday isCompleted today startISO endISO t \<and>
       (\<exists>d. due t = Some d \<and> d \<noteq> [] \<and> dueOverlapsWindow today startISO endISO d) \<and>
       (\<forall>v. scheduled t = Some v \<longrightarrow> v = [] \<or> v < endISO)
         \<longrightarrow> t \<in> set ?dt) \<and>
      ((\<exists>v. scheduled t = Some v \<and> v \<noteq> [] \<and> startISO \<le> v \<and> v < endISO)
         \<longrightarrow> t \<notin> set ?dt \<and>
             (\<not> isCompleted t \<longrightarrow> t \<in> set ?tt \<or> t \<in> set ?ad))"
    using cl tl a b by (intro conjI)
  then show ?thesis
    by (intro exI)
qed


theorem due_or_scheduled_witness:
  "\<exists>timeTasks dueTasks allDayTasks.
     Timeline_tasks completed ''2024-01-01'' ''2024-01-01'' ''2024-01-02''
       (ex_state [ex_task ''f'' None (Some ''2024-01-01'') False None,
                  ex_task ''b'' (Some ''2024-01-01T09:00'') (Some ''2024-01-01'') False None]
          None None) = Inr (timeTasks, dueTasks, allDayTasks) \<and>
     ex_task ''f'' None (Some ''2024-01-01'') False None \<in> set dueTasks \<and>
     ex_task ''b'' (Some ''2024-01-01T09:00'') (Some ''2024-01-01'') False None \<notin> set dueTasks"
proof -
  let ?f = "ex_task ''f'' None (Some ''2024-01-01'') False None"
  let ?b = "ex_task ''b'' (Some ''2024-01-01T09:00'') (Some ''2024-01-01'') False None"
  let ?st = "ex_state [?f, ?b] None None"
  have f1: "?f \<in> snd ` set (tasks ?st)"
    by (simp add: ex_state_def)
  have b1: "?b \<in> snd ` set (tasks ?st)"
    by (simp add: ex_state_def)
  have f2: "\<not> completed ?f \<and>
       \<not> scheduledForToday completed ''2024-01-01'' ''2024-01-01'' ''2024-01-02'' ?f \<and>
       (\<exists>d. due ?f = Some d \<and> d \<noteq> [] \<and>
          dueOverlapsWindow ''2024-01-01'' ''2024-01-01'' ''2024-01-02'' d) \<and>
       (\<forall>v. scheduled ?f = Some v \<longrightarrow> v = [] \<or> v < ''2024-01-02'')"
    by (simp add: ex_task_def scheduledForToday_def dueOverlapsWindow_def)
  have b2: "\<exists>v. scheduled ?b = Some v \<and> v \<noteq> [] \<and> ''2024-01-01'' \<le> v \<and> v < ''2024-01-02''"
    by (simp add: ex_task_def)
  from due_or_scheduled [where isCompleted = completed and today = "''2024-01-01''"
      and startISO = "''2024-01-01''" and endISO = "''2024-01-02''", OF f1] f2
  obtain timeTasks dueTasks allDayTasks pruned where
    tl: "Timeline_tasks completed ''2024-01-01'' ''2024-01-01'' ''2024-01-02'' ?st
           = Inr (timeTasks, dueTasks, pruned)" and
    f3: "?f \<in> set dueTasks"
    by blast
  from due_or_scheduled [where isCompleted = completed and today = "''2024-01-01''"
      and startISO = "''2024-01-01''" and endISO = "''2024-01-02''", OF b1] b2
  obtain timeTasks' dueTasks' allDayTasks' pruned' where
    tl': "Timeline_tasks completed ''2024-01-01'' ''2024-01-01'' ''2024-01-02'' ?st
           = Inr (timeTasks', dueTasks', pruned')" and
    b3: "?b \<notin> set dueTasks'"
    by blast
  from tl tl' have "dueTasks' = dueTasks"
    by simp
  with tl f3 b3 show ?thesis
    by blast
qed

section \<open>Pruning the all-day tasks\<close>

text \<open>
  The cut of the chain loses nothing: an id that the chain reaches at all is among the
  first \<open>length tbl + 1\<close> ids. Up to the id looked for, all ids of the chain are
  keys of the table, so a longer way to it would pass one key twice, and the part in
  between could be left out.
\<close>

lemma parentOf_funpow_None: "(parentOf tbl ^^ k) None = None"
  by (induction k) (simp_all add: parentOf_def)

lemma ancestorChain_None: "ancestorChain tbl n None = []"
  by (cases n) simp_all

lemma ancestorChain_iff:
  "a \<in> set (ancestorChain tbl n p) \<longleftrightarrow> (\<exists>k<n. (parentOf tbl ^^ k) p = Some a)"
proof (induction n arbitrary: p)
  case 0
  then show ?case by simp
next
  case (Suc n)
  show ?case
  proof (cases p)
    case None
    then show ?thesis
      by (simp add: parentOf_funpow_None)
  next
    case (Some pid)
    have "(\<exists>k<Suc n. (parentOf tbl ^^ k) (Some pid) = Some a) \<longleftrightarrow>
          pid = a \<or> (\<exists>j<n. (parentOf tbl ^^ Suc j) (Some pid) = Some a)"
      (is "?L \<longleftrightarrow> ?R")
    proof
      assume ?L
      then obtain k where k: "k < Suc n" "(parentOf tbl ^^ k) (Some pid) = Some a"
        by blast
      show ?R
      proof (cases k)
        case 0
        with k show ?thesis by simp
      next
        case (Suc j)
        with k show ?thesis by auto
      qed
    next
      assume ?R
      then show ?L
      proof
        assume "pid = a"
        then have "(parentOf tbl ^^ 0) (Some pid) = Some a" by simp
        then show ?L by blast
      next
        assume "\<exists>j<n. (parentOf tbl ^^ Suc j) (Some pid) = Some a"
        then obtain j where "j < n" "(parentOf tbl ^^ Suc j) (Some pid) = Some a"
          by blast
        then have "Suc j < Suc n \<and> (parentOf tbl ^^ Suc j) (Some pid) = Some a"
          by simp
        then show ?L by blast
      qed
    qed
    then show ?thesis
      using Some Suc.IH [of "parentOf tbl (Some pid)"]
      by (simp add: funpow_swap1 del: funpow.simps) (auto simp: funpow_swap1)
  qed
qed

lemma parentOf_funpow_Some_key:
  assumes "(parentOf tbl ^^ Suc d) x = Some a"
  shows "\<exists>q. x = Some q \<and> q \<in> fst ` set tbl"
proof (cases x)
  case None
  with assms show ?thesis
    by (simp add: parentOf_funpow_None del: funpow.simps)
next
  case (Some q)
  have "(parentOf tbl ^^ d) (parentOf tbl (Some q)) = Some a"
    using assms Some by (simp add: funpow_swap1)
  then have "parentOf tbl (Some q) \<noteq> None"
    by (cases "parentOf tbl (Some q)") (simp_all add: parentOf_funpow_None)
  then have "map_of tbl q \<noteq> None"
    by (auto simp: parentOf_def split: option.splits)
  then have "q \<in> fst ` set tbl"
    by (simp add: map_of_eq_None_iff)
  with Some show ?thesis by simp
qed

lemma chain_reached_early:
  assumes "(parentOf tbl ^^ k) p = Some a"
  shows "\<exists>k'\<le>length tbl. (parentOf tbl ^^ k') p = Some a"
proof (rule ccontr)
  assume none: "\<not> (\<exists>k'\<le>length tbl. (parentOf tbl ^^ k') p = Some a)"
  define m where "m = (LEAST k. (parentOf tbl ^^ k) p = Some a)"
  have Pm: "(parentOf tbl ^^ m) p = Some a"
    unfolding m_def using assms by (rule LeastI)
  have least: "m \<le> j" if "(parentOf tbl ^^ j) p = Some a" for j
    unfolding m_def using that by (rule Least_le)
  have big: "length tbl < m"
    using none Pm by (meson not_le_imp_less)
  define g where "g i = the ((parentOf tbl ^^ i) p)" for i
  have key: "\<exists>q. (parentOf tbl ^^ i) p = Some q \<and> q \<in> fst ` set tbl" if "i < m" for i
  proof -
    from that obtain d where d: "m = Suc d + i"
      by (metis add.commute add_Suc_right less_imp_Suc_add)
    have "(parentOf tbl ^^ Suc d) ((parentOf tbl ^^ i) p) = Some a"
      using Pm unfolding d by (simp only: funpow_add o_apply)
    then show ?thesis
      by (rule parentOf_funpow_Some_key)
  qed
  have "g ` {..<m} \<subseteq> fst ` set tbl"
  proof
    fix x assume "x \<in> g ` {..<m}"
    then obtain i where i: "i < m" "x = g i" by auto
    from key [OF i(1)] obtain q where "(parentOf tbl ^^ i) p = Some q" "q \<in> fst ` set tbl"
      by blast
    then show "x \<in> fst ` set tbl"
      using i(2) by (simp add: g_def)
  qed
  then have "card (g ` {..<m}) \<le> card (fst ` set tbl)"
    by (simp add: card_mono)
  also have "\<dots> \<le> card (set tbl)"
    by (simp add: card_image_le)
  also have "\<dots> \<le> length tbl"
    by (rule card_length)
  also have "\<dots> < card {..<m}"
    using big by simp
  finally have "\<not> inj_on g {..<m}"
    by (rule pigeonhole)
  then obtain i j where ij: "i < m" "j < m" "i \<noteq> j" "g i = g j"
    by (auto simp: inj_on_def)
  have eq: "(parentOf tbl ^^ i) p = (parentOf tbl ^^ j) p"
    using key [OF ij(1)] key [OF ij(2)] ij(4) by (auto simp: g_def)
  have shorter: "\<exists>n<m. (parentOf tbl ^^ n) p = Some a" if "lo < hi" "hi < m"
      "(parentOf tbl ^^ lo) p = (parentOf tbl ^^ hi) p" for lo hi
  proof -
    from that(2) obtain d where d: "m = d + hi"
      by (metis add.commute less_imp_add_positive)
    have "(parentOf tbl ^^ (d + lo)) p = (parentOf tbl ^^ d) ((parentOf tbl ^^ lo) p)"
      by (simp only: funpow_add o_apply)
    also have "\<dots> = (parentOf tbl ^^ d) ((parentOf tbl ^^ hi) p)"
      by (simp only: that(3))
    also have "\<dots> = (parentOf tbl ^^ m) p"
      unfolding d by (simp only: funpow_add o_apply)
    finally have "(parentOf tbl ^^ (d + lo)) p = Some a"
      using Pm by simp
    moreover have "d + lo < m"
      using that(1) d by simp
    ultimately show ?thesis by blast
  qed
  have "\<exists>n<m. (parentOf tbl ^^ n) p = Some a"
  proof (cases "i < j")
    case True
    then show ?thesis using ij(2) eq by (rule shorter)
  next
    case False
    with ij(3) have "j < i" by simp
    then show ?thesis using ij(1) eq [symmetric] by (rule shorter)
  qed
  then obtain n where "n < m" "(parentOf tbl ^^ n) p = Some a"
    by blast
  with least [of n] show False
    by simp
qed

lemma reaches_iff_chain:
  "(\<exists>k. (parentOf tbl ^^ k) p = Some a) \<longleftrightarrow>
     a \<in> set (ancestorChain tbl (Suc (length tbl)) p)"
proof
  assume "\<exists>k. (parentOf tbl ^^ k) p = Some a"
  then obtain k where "(parentOf tbl ^^ k) p = Some a" by blast
  then obtain k' where "k' \<le> length tbl" "(parentOf tbl ^^ k') p = Some a"
    using chain_reached_early by blast
  then have "k' < Suc (length tbl) \<and> (parentOf tbl ^^ k') p = Some a"
    by simp
  then show "a \<in> set (ancestorChain tbl (Suc (length tbl)) p)"
    unfolding ancestorChain_iff by blast
next
  assume "a \<in> set (ancestorChain tbl (Suc (length tbl)) p)"
  then show "\<exists>k. (parentOf tbl ^^ k) p = Some a"
    unfolding ancestorChain_iff by blast
qed

lemma fold_removeNestedChildren_set:
  "c \<in> set (fold (removeNestedChildren tbl) ids xs) \<longleftrightarrow>
     c \<in> set xs \<and>
     (\<forall>i\<in>set ids. task_id c \<noteq> i \<and> (\<forall>k. ancestorAt tbl c k \<noteq> Some i))"
proof (induction ids arbitrary: xs)
  case Nil
  then show ?case by simp
next
  case (Cons i ids)
  have "c \<in> set (removeNestedChildren tbl i xs) \<longleftrightarrow>
        c \<in> set xs \<and> task_id c \<noteq> i \<and> (\<forall>k. ancestorAt tbl c k \<noteq> Some i)"
    using reaches_iff_chain [of tbl "parent c" i]
    by (auto simp: removeNestedChildren_def ancestorAt_def)
  then show ?case
    using Cons.IH [of "removeNestedChildren tbl i xs"] by auto
qed

text \<open>
  C2. The Timeline returns the timed and due lists of the classification and, as its
  all-day list, a part of the classified isCompleted all-day list in which there is no item whose id
  equals the id of a timed task and no item whose ancestor chain, through parent ids,
  reaches a timed task. In particular an all-day item whose \<open>parent\<close> is the id
  of a timed task is not in the all-day list returned.
\<close>

theorem nested_children_pruned:
  "\<exists>timeTasks dueTasks allDayTasks pruned.
     classified isCompleted today startISO endISO state = Inr (timeTasks, dueTasks, allDayTasks) \<and>
     Timeline_tasks isCompleted today startISO endISO state = Inr (timeTasks, dueTasks, pruned) \<and>
     set pruned \<subseteq> set allDayTasks \<and>
     (\<forall>c\<in>set allDayTasks. \<forall>p\<in>set timeTasks.
        task_id c = task_id p \<or> (\<exists>k. ancestorAt (tasks state) c k = Some (task_id p))
          \<longrightarrow> c \<notin> set pruned) \<and>
     (\<forall>c\<in>set allDayTasks. \<forall>p\<in>set timeTasks.
        parent c = Some (task_id p) \<longrightarrow> c \<notin> set pruned)"
proof -
  let ?vals = "map snd (tasks state)"
  let ?tt = "filter (pushedToTasks isCompleted today startISO endISO) ?vals"
  let ?dt = "filter (pushedToDue isCompleted today startISO endISO) ?vals"
  let ?ad = "filter (pushedToAllDay isCompleted today startISO endISO) ?vals"
  let ?pr = "fold (removeNestedChildren (tasks state)) (map task_id ?tt) ?ad"
  have cl: "classified isCompleted today startISO endISO state = Inr (?tt, ?dt, ?ad)"
    by (rule classified_eq)
  have tl: "Timeline_tasks isCompleted today startISO endISO state = Inr (?tt, ?dt, ?pr)"
    by (rule Timeline_tasks_eq)
  have sub: "set ?pr \<subseteq> set ?ad"
    by (rule removeNestedChildren_subset)
  have a: "\<forall>c\<in>set ?ad. \<forall>p\<in>set ?tt.
        task_id c = task_id p \<or> (\<exists>k. ancestorAt (tasks state) c k = Some (task_id p))
          \<longrightarrow> c \<notin> set ?pr"
    unfolding fold_removeNestedChildren_set by auto
  have b: "\<forall>c\<in>set ?ad. \<forall>p\<in>set ?tt. parent c = Some (task_id p) \<longrightarrow> c \<notin> set ?pr"
  proof (intro ballI impI)
    fix c p
    assume c: "c \<in> set ?ad" and p: "p \<in> set ?tt" and "parent c = Some (task_id p)"
    then have "ancestorAt (tasks state) c 0 = Some (task_id p)"
      by (simp add: ancestorAt_def)
    then have "\<exists>k. ancestorAt (tasks state) c k = Some (task_id p)"
      by (rule exI)
    with a c p show "c \<notin> set ?pr"
      by blast
  qed
  show ?thesis
    apply (rule exI [where x = ?tt])
    apply (rule exI [where x = ?dt])
    apply (rule exI [where x = ?ad])
    apply (rule exI [where x = ?pr])
    using cl tl sub a b by (intro conjI)
qed

theorem nested_children_pruned_witness:
  "\<exists>timeTasks dueTasks allDayTasks pruned.
     classified completed ''2024-01-01'' ''2024-01-01'' ''2024-01-02''
       (ex_state [ex_task ''p'' (Some ''2024-01-01T09:00'') None False None,
                  ex_task ''c'' (Some ''2024-01-01'') None False (Some ''p''),
                  ex_task ''g'' (Some ''2024-01-01'') None False (Some ''c'')] None None)
       = Inr (timeTasks, dueTasks, allDayTasks) \<and>
     Timeline_tasks completed ''2024-01-01'' ''2024-01-01'' ''2024-01-02''
       (ex_state [ex_task ''p'' (Some ''2024-01-01T09:00'') None False None,
                  ex_task ''c'' (Some ''2024-01-01'') None False (Some ''p''),
                  ex_task ''g'' (Some ''2024-01-01'') None False (Some ''c'')] None None)
       = Inr (timeTasks, dueTasks, pruned) \<and>
     ex_task ''p'' (Some ''2024-01-01T09:00'') None False None \<in> set timeTasks \<and>
     ex_task ''c'' (Some ''2024-01-01'') None False (Some ''p'') \<in> set allDayTasks \<and>
     ex_task ''g'' (Some ''2024-01-01'') None False (Some ''c'') \<in> set allDayTasks \<and>
     ex_task ''c'' (Some ''2024-01-01'') None False (Some ''p'') \<notin> set pruned \<and>
     ex_task ''g'' (Some ''2024-01-01'') None False (Some ''c'') \<notin> set pruned"
proof -
  let ?p = "ex_task ''p'' (Some ''2024-01-01T09:00'') None False None"
  let ?c = "ex_task ''c'' (Some ''2024-01-01'') None False (Some ''p'')"
  let ?g = "ex_task ''g'' (Some ''2024-01-01'') None False (Some ''c'')"
  let ?st = "ex_state [?p, ?c, ?g] None None"
  have ev: "classified completed ''2024-01-01'' ''2024-01-01'' ''2024-01-02'' ?st = Inr ([?p], [], [?c, ?g])"
    by (simp add: classified_eq pushedToTasks_def pushedToDue_def pushedToAllDay_def
        scheduledForToday_def isToday_def ex_state_def ex_task_def)
  from nested_children_pruned [where isCompleted = completed and today = "''2024-01-01''"
      and startISO = "''2024-01-01''" and endISO = "''2024-01-02''" and state = ?st]
  obtain timeTasks dueTasks allDayTasks pruned where
    cl: "classified completed ''2024-01-01'' ''2024-01-01'' ''2024-01-02'' ?st
           = Inr (timeTasks, dueTasks, allDayTasks)" and
    tl: "Timeline_tasks completed ''2024-01-01'' ''2024-01-01'' ''2024-01-02'' ?st
           = Inr (timeTasks, dueTasks, pruned)" and
    sub: "set pruned \<subseteq> set allDayTasks" and
    anc: "\<forall>c\<in>set allDayTasks. \<forall>p\<in>set timeTasks.
        task_id c = task_id p \<or> (\<exists>k. ancestorAt (tasks ?st) c k = Some (task_id p))
          \<longrightarrow> c \<notin> set pruned" and
    par: "\<forall>c\<in>set allDayTasks. \<forall>p\<in>set timeTasks.
        parent c = Some (task_id p) \<longrightarrow> c \<notin> set pruned"
    by (elim exE conjE) (rule that, assumption+)
  from cl ev have tt: "timeTasks = [?p]" and ad: "allDayTasks = [?c, ?g]"
    by simp_all
  have pc: "parent ?c = Some (task_id ?p)"
    by (simp add: ex_task_def)
  have gp: "\<exists>k. ancestorAt (tasks ?st) ?g k = Some (task_id ?p)"
    apply (rule exI [where x = "Suc 0"])
    by (simp add: ancestorAt_def parentOf_def ex_state_def ex_task_def)
  have p_in: "?p \<in> set timeTasks" and c_in: "?c \<in> set allDayTasks"
    and g_in: "?g \<in> set allDayTasks"
    by (simp_all add: tt ad)
  have c_out: "?c \<notin> set pruned"
    by (rule par [rule_format, OF c_in p_in pc])
  have g_out: "?g \<notin> set pruned"
    by (rule anc [rule_format, OF g_in p_in disjI2, OF gp])
  show ?thesis
    apply (rule exI [where x = timeTasks])
    apply (rule exI [where x = dueTasks])
    apply (rule exI [where x = allDayTasks])
    apply (rule exI [where x = pruned])
    using cl tl p_in c_in g_in c_out g_out by (intro conjI)
qed

section \<open>patchTasks\<close>

text \<open>The record saved for an id depends on the store only, not on the calls made.\<close>

lemma savedTask_calls_irrelevant:
  "savedTask D (w\<lparr>saveTask_calls := c\<rparr>) task i = savedTask D w task i"
  by (simp add: savedTask_def getTask_def)

lemma loop_all_resolve:
  "\<forall>i \<in> set ids. saveTask api (savedTask D w task i) \<Longrightarrow>
   patchTasks_loop D (Some api) task ids w =
     (Inr (), w\<lparr>saveTask_calls := saveTask_calls w @ map (savedTask D w task) ids\<rparr>)"
proof (induction ids arbitrary: w)
  case Nil
  then show ?case by simp
next
  case (Cons i ids)
  let ?w' = "w\<lparr>saveTask_calls := saveTask_calls w @ [savedTask D w task i]\<rparr>"
  have "\<forall>j \<in> set ids. saveTask api (savedTask D ?w' task j)"
    using Cons.prems by (simp add: savedTask_calls_irrelevant)
  then have "patchTasks_loop D (Some api) task ids ?w' =
     (Inr (), ?w'\<lparr>saveTask_calls := saveTask_calls ?w' @ map (savedTask D ?w' task) ids\<rparr>)"
    by (rule Cons.IH)
  then show ?case
    using Cons.prems by (simp add: savedTask_calls_irrelevant Let_def)
qed

lemma loop_rejected:
  "\<forall>i \<in> set pre. saveTask api (savedTask D w task i) \<Longrightarrow>
   \<not> saveTask api (savedTask D w task bad) \<Longrightarrow>
   patchTasks_loop D (Some api) task (pre @ bad # post) w =
     (Inl (SaveRejected bad),
      w\<lparr>saveTask_calls := saveTask_calls w @ map (savedTask D w task) (pre @ [bad])\<rparr>)"
proof (induction pre arbitrary: w)
  case Nil
  then show ?case by (simp add: Let_def)
next
  case (Cons i pre)
  let ?w' = "w\<lparr>saveTask_calls := saveTask_calls w @ [savedTask D w task i]\<rparr>"
  have 1: "\<forall>j \<in> set pre. saveTask api (savedTask D ?w' task j)"
    using Cons.prems by (simp add: savedTask_calls_irrelevant)
  have 2: "\<not> saveTask api (savedTask D ?w' task bad)"
    using Cons.prems by (simp add: savedTask_calls_irrelevant)
  have "patchTasks_loop D (Some api) task (pre @ bad # post) ?w' =
     (Inl (SaveRejected bad),
      ?w'\<lparr>saveTask_calls := saveTask_calls ?w' @ map (savedTask D ?w' task) (pre @ [bad])\<rparr>)"
    using 1 2 by (rule Cons.IH)
  then show ?case
    using Cons.prems by (simp add: savedTask_calls_irrelevant Let_def)
qed

text \<open>
  C3, as stated, fails. With three ids and a collaborator that rejects the write of the
  second, \<open>patchTasks\<close> ends with that rejection after two calls of \<open>saveTask\<close>,
  for the first and the second id: the third id is not written.
\<close>

theorem batch_counterexample:
  "fst (patchTasks ''DELETE'' [''a'', ''b'', ''c''] ex_patch
      (ex_world [ex_task ''a'' None None False None, ex_task ''b'' None None False None,
                 ex_task ''c'' None None False None] (Some (ex_api ''b'')) None))
     = Inl (SaveRejected ''b'') \<and>
   saved_ids (snd (patchTasks ''DELETE'' [''a'', ''b'', ''c''] ex_patch
      (ex_world [ex_task ''a'' None None False None, ex_task ''b'' None None False None,
                 ex_task ''c'' None None False None] (Some (ex_api ''b'')) None)))
     = [JStr ''a'', JStr ''b'']"
  by (simp add: patchTasks_def getObsidianAPI_def ex_world_def ex_state_def ex_api_def
      savedTask_def getTask_def spread_def opt_field_def ex_task_def ex_patch_def
      get_prop_def saved_ids_def Let_def)

text \<open>
  C3, amended. The ids are processed in order, and a rejection of \<open>saveTask\<close> ends
  the call: when the writes of the ids \<open>pre\<close> resolve and the write of \<open>bad\<close>
  rejects, \<open>patchTasks\<close> fails with that rejection, \<open>saveTask\<close> has been called
  once for each id of \<open>pre\<close> and once for \<open>bad\<close>, in order, and not for the ids
  \<open>post\<close> that follow; nothing else has changed.
\<close>

theorem rejection_stops_batch:
  "getObsidianAPI w = Some api \<Longrightarrow>
   \<forall>i \<in> set pre. saveTask api (savedTask D w task i) \<Longrightarrow>
   \<not> saveTask api (savedTask D w task bad) \<Longrightarrow>
   patchTasks D (pre @ bad # post) task w =
     (Inl (SaveRejected bad),
      w\<lparr>saveTask_calls := saveTask_calls w @ map (savedTask D w task) (pre @ [bad])\<rparr>)"
  by (simp add: patchTasks_def loop_rejected)

theorem rejection_stops_batch_witness:
  "getObsidianAPI (ex_world [ex_task ''a'' None None False None, ex_task ''b'' None None False None,
                 ex_task ''c'' None None False None] (Some (ex_api ''b'')) None) = Some (ex_api ''b'') \<and>
   saveTask (ex_api ''b'') (savedTask ''DELETE'' (ex_world [ex_task ''a'' None None False None, ex_task ''b'' None None False None,
                 ex_task ''c'' None None False None] (Some (ex_api ''b'')) None) ex_patch ''a'') \<and>
   \<not> saveTask (ex_api ''b'') (savedTask ''DELETE'' (ex_world [ex_task ''a'' None None False None, ex_task ''b'' None None False None,
                 ex_task ''c'' None None False None] (Some (ex_api ''b'')) None) ex_patch ''b'') \<and>
   fst (patchTasks ''DELETE'' ([''a''] @ ''b'' # [''c'']) ex_patch
      (ex_world [ex_task ''a'' None None False None, ex_task ''b'' None None False None,
                 ex_task ''c'' None None False None] (Some (ex_api ''b'')) None))
     = Inl (SaveRejected ''b'') \<and>
   length (saveTask_calls (snd (patchTasks ''DELETE'' ([''a''] @ ''b'' # [''c'']) ex_patch
      (ex_world [ex_task ''a'' None None False None, ex_task ''b'' None None False None,
                 ex_task ''c'' None None False None] (Some (ex_api ''b'')) None)))) = 2"
proof -
  let ?w = "ex_world [ex_task ''a'' None None False None, ex_task ''b'' None None False None,
                 ex_task ''c'' None None False None] (Some (ex_api ''b'')) None"
  have h1: "getObsidianAPI ?w = Some (ex_api ''b'')"
    by (simp add: getObsidianAPI_def ex_world_def ex_state_def)
  have a: "saveTask (ex_api ''b'') (savedTask ''DELETE'' ?w ex_patch ''a'')"
    by (simp add: ex_world_def ex_state_def ex_api_def
      savedTask_def getTask_def spread_def opt_field_def ex_task_def ex_patch_def
      get_prop_def)
  then have h2: "\<forall>i \<in> set [''a'']. saveTask (ex_api ''b'') (savedTask ''DELETE'' ?w ex_patch i)"
    by simp
  have h3: "\<not> saveTask (ex_api ''b'') (savedTask ''DELETE'' ?w ex_patch ''b'')"
    by (simp add: ex_world_def ex_state_def ex_api_def
      savedTask_def getTask_def spread_def opt_field_def ex_task_def ex_patch_def
      get_prop_def)
  have "patchTasks ''DELETE'' ([''a''] @ ''b'' # [''c'']) ex_patch ?w =
     (Inl (SaveRejected ''b''),
      ?w\<lparr>saveTask_calls := saveTask_calls ?w @ map (savedTask ''DELETE'' ?w ex_patch) ([''a''] @ [''b''])\<rparr>)"
    using h1 h2 h3 by (rule rejection_stops_batch)
  then have "fst (patchTasks ''DELETE'' ([''a''] @ ''b'' # [''c'']) ex_patch ?w) = Inl (SaveRejected ''b'') \<and>
    length (saveTask_calls (snd (patchTasks ''DELETE'' ([''a''] @ ''b'' # [''c'']) ex_patch ?w))) = 2"
    by (simp add: ex_world_def)
  with h1 a h3 show ?thesis by (intro conjI) simp_all
qed

lemma spread_scheduled: "scheduled t = Some s \<Longrightarrow> spread t ''scheduled'' = Some (JStr s)"
  by (simp add: spread_def opt_field_def)

lemma patchTasks_calls:
  "saveTask_calls (snd (patchTasks D ids task w)) =
     saveTask_calls (snd (patchTasks_loop D (getObsidianAPI w) task ids w))"
proof (cases "patchTasks_loop D (getObsidianAPI w) task ids w")
  case (Pair r w')
  then show ?thesis
    by (cases r; cases "getObsidianAPI w") (simp_all add: patchTasks_def)
qed

lemma loop_single:
  "patchTasks_loop D (Some api) task [i] w =
     (if saveTask api (savedTask D w task i) then Inr () else Inl (SaveRejected i),
      w\<lparr>saveTask_calls := saveTask_calls w @ [savedTask D w task i]\<rparr>)"
  by (simp add: Let_def)

lemma savedTask_sentinel:
  "getTask w i = Some t \<Longrightarrow> task ''scheduled'' = Some (JStr D) \<Longrightarrow>
   savedTask D w task i = (spread t ++ task)(''scheduled'' := None)"
  by (simp add: savedTask_def get_prop_def)

text \<open>
  C6. When the partial has the delete sentinel as its \<open>scheduled\<close> value and the
  task has a record with \<open>scheduled\<close> set, \<open>patchTasks\<close> passes to \<open>saveTask\<close>
  a record in which the key \<open>scheduled\<close> is absent (and so is not the empty
  string), although it is a key of the task's record; every other key is as in the merge.
\<close>

theorem delete_sentinel_removes_scheduled:
  "getObsidianAPI w = Some api \<Longrightarrow> getTask w i = Some t \<Longrightarrow> scheduled t = Some s \<Longrightarrow>
   task ''scheduled'' = Some (JStr D) \<Longrightarrow>
   \<exists>saved. saveTask_calls (snd (patchTasks D [i] task w)) = saveTask_calls w @ [saved] \<and>
     spread t ''scheduled'' = Some (JStr s) \<and>
     saved ''scheduled'' = None \<and>
     (\<forall>k. k \<noteq> ''scheduled'' \<longrightarrow> saved k = (spread t ++ task) k)"
proof -
  assume api: "getObsidianAPI w = Some api" and t: "getTask w i = Some t"
    and s: "scheduled t = Some s" and d: "task ''scheduled'' = Some (JStr D)"
  let ?saved = "(spread t ++ task)(''scheduled'' := None)"
  have sv: "savedTask D w task i = ?saved"
    using t d by (rule savedTask_sentinel)
  have "saveTask_calls (snd (patchTasks D [i] task w)) =
      saveTask_calls (snd (patchTasks_loop D (Some api) task [i] w))"
    using api by (simp only: patchTasks_calls)
  then have calls: "saveTask_calls (snd (patchTasks D [i] task w)) = saveTask_calls w @ [?saved]"
    by (simp only: loop_single sv snd_conv) simp
  have sp: "spread t ''scheduled'' = Some (JStr s)"
    using s by (rule spread_scheduled)
  show ?thesis
    apply (rule exI [where x = ?saved])
    using calls sp by simp
qed

theorem delete_sentinel_removes_scheduled_witness:
  "getObsidianAPI (ex_world [ex_task ''a'' (Some ''2024-01-01'') None False None] (Some (ex_api ''z'')) None)
     = Some (ex_api ''z'') \<and>
   getTask (ex_world [ex_task ''a'' (Some ''2024-01-01'') None False None] (Some (ex_api ''z'')) None) ''a''
     = Some (ex_task ''a'' (Some ''2024-01-01'') None False None) \<and>
   scheduled (ex_task ''a'' (Some ''2024-01-01'') None False None) = Some ''2024-01-01'' \<and>
   [''scheduled'' \<mapsto> JStr ''DELETE''] ''scheduled'' = Some (JStr ''DELETE'') \<and>
   (\<exists>saved. saveTask_calls (snd (patchTasks ''DELETE'' [''a''] [''scheduled'' \<mapsto> JStr ''DELETE'']
         (ex_world [ex_task ''a'' (Some ''2024-01-01'') None False None] (Some (ex_api ''z'')) None)))
       = [saved] \<and>
     saved ''scheduled'' = None \<and> saved ''id'' = Some (JStr ''a''))"
proof -
  let ?t = "ex_task ''a'' (Some ''2024-01-01'') None False None"
  let ?w = "ex_world [?t] (Some (ex_api ''z'')) None"
  let ?p = "[''scheduled'' \<mapsto> JStr ''DELETE'']"
  have h1: "getObsidianAPI ?w = Some (ex_api ''z'')"
    by (simp add: getObsidianAPI_def ex_world_def ex_state_def)
  have h2: "getTask ?w ''a'' = Some ?t"
    by (simp add: getTask_def ex_world_def ex_state_def ex_task_def)
  have h3: "scheduled ?t = Some ''2024-01-01''"
    by (simp add: ex_task_def)
  have h4: "?p ''scheduled'' = Some (JStr ''DELETE'')"
    by simp
  from delete_sentinel_removes_scheduled [where task = ?p and D = "''DELETE''", OF h1 h2 h3 h4]
  obtain saved where
    c: "saveTask_calls (snd (patchTasks ''DELETE'' [''a''] ?p ?w)) = saveTask_calls ?w @ [saved]" and
    n: "saved ''scheduled'' = None" and
    o: "\<forall>k. k \<noteq> ''scheduled'' \<longrightarrow> saved k = (spread ?t ++ ?p) k"
    by (elim exE conjE) (rule that, assumption+)
  have ne: "''id'' \<noteq> ''scheduled''"
    by simp
  have "saved ''id'' = (spread ?t ++ ?p) ''id''"
    by (rule o [THEN spec, THEN mp, OF ne])
  then have i: "saved ''id'' = Some (JStr ''a'')"
    by (simp add: spread_def opt_field_def ex_task_def)
  have e: "saveTask_calls ?w = []"
    by (simp add: ex_world_def)
  have "\<exists>saved. saveTask_calls (snd (patchTasks ''DELETE'' [''a''] ?p ?w)) = [saved] \<and>
     saved ''scheduled'' = None \<and> saved ''id'' = Some (JStr ''a'')"
    apply (rule exI [where x = saved])
    using c n i e by simp
  with h1 h2 h3 h4 show ?thesis
    by (intro conjI)
qed

text \<open>
  C8, as stated, fails. For an id that has no record in the task table the merge is the
  partial alone, and \<open>saveTask\<close> is called with it: a write is made for that id.
\<close>

theorem stale_id_counterexample:
  "getTask (ex_world [] (Some (ex_api ''z'')) None) ''gone'' = None \<and>
   fst (patchTasks ''DELETE'' [''gone''] ex_patch (ex_world [] (Some (ex_api ''z'')) None)) = Inr () \<and>
   saved_ids (snd (patchTasks ''DELETE'' [''gone''] ex_patch (ex_world [] (Some (ex_api ''z'')) None)))
     = [JUndefined]"
  by (simp add: patchTasks_def getObsidianAPI_def ex_world_def ex_state_def ex_api_def
      savedTask_def getTask_def ex_patch_def get_prop_def saved_ids_def Let_def)

lemma patchTasks_Cons_resolved:
  "getObsidianAPI w = Some api \<Longrightarrow> saveTask api (savedTask D w task i) \<Longrightarrow>
   patchTasks D (i # rest) task w =
     patchTasks D rest task (w\<lparr>saveTask_calls := saveTask_calls w @ [savedTask D w task i]\<rparr>)"
  by (simp add: patchTasks_def getObsidianAPI_def Let_def)

lemma patchTasks_Cons_rejected:
  "getObsidianAPI w = Some api \<Longrightarrow> \<not> saveTask api (savedTask D w task i) \<Longrightarrow>
   patchTasks D (i # rest) task w =
     (Inl (SaveRejected i), w\<lparr>saveTask_calls := saveTask_calls w @ [savedTask D w task i]\<rparr>)"
  by (simp add: patchTasks_def Let_def)

lemma savedTask_stale:
  "getTask w i = None \<Longrightarrow>
   savedTask D w task i =
     (if get_prop task ''scheduled'' = JStr D then task(''scheduled'' := None) else task)"
  by (simp add: savedTask_def)

lemma savedTask_calls_irrelevant_fun:
  "savedTask D (w\<lparr>saveTask_calls := c\<rparr>) task = savedTask D w task"
  by (rule ext) (rule savedTask_calls_irrelevant)

lemma patchTasks_prefix_resolved:
  "getObsidianAPI w = Some api \<Longrightarrow>
   \<forall>j \<in> set pre. saveTask api (savedTask D w task j) \<Longrightarrow>
   patchTasks D (pre @ rest) task w =
     patchTasks D rest task
       (w\<lparr>saveTask_calls := saveTask_calls w @ map (savedTask D w task) pre\<rparr>)"
proof (induction pre arbitrary: w)
  case Nil
  then show ?case by simp
next
  case (Cons j pre)
  let ?w' = "w\<lparr>saveTask_calls := saveTask_calls w @ [savedTask D w task j]\<rparr>"
  have api: "getObsidianAPI ?w' = Some api"
    using Cons.prems(1) by (simp add: getObsidianAPI_def)
  have ok: "\<forall>k \<in> set pre. saveTask api (savedTask D ?w' task k)"
    using Cons.prems(2) by (simp add: savedTask_calls_irrelevant)
  have "patchTasks D ((j # pre) @ rest) task w = patchTasks D (pre @ rest) task ?w'"
    using Cons.prems by (simp add: patchTasks_Cons_resolved)
  also have "\<dots> = patchTasks D rest task
       (?w'\<lparr>saveTask_calls := saveTask_calls ?w' @ map (savedTask D ?w' task) pre\<rparr>)"
    using api ok by (rule Cons.IH)
  finally show ?case
    by (simp add: savedTask_calls_irrelevant_fun)
qed

text \<open>
  C8, amended. For an id with no record in the task table, the record that
  \<open>patchTasks\<close> builds is the partial alone (without \<open>scheduled\<close> when that is
  the delete sentinel); building it raises nothing, and, when the writes of the ids
  before it have resolved, \<open>saveTask\<close> is called with it once. When that write
  resolves, the remaining ids are processed as a call of \<open>patchTasks\<close> on them
  would; when it rejects, \<open>patchTasks\<close> fails with the rejection and the remaining
  ids are not processed.
\<close>

theorem stale_id_still_written:
  "getObsidianAPI w = Some api \<Longrightarrow>
   \<forall>j \<in> set pre. saveTask api (savedTask D w task j) \<Longrightarrow>
   getTask w i = None \<Longrightarrow>
   savedTask D w task i =
     (if get_prop task ''scheduled'' = JStr D then task(''scheduled'' := None) else task) \<and>
   patchTasks D (pre @ i # rest) task w =
     (if saveTask api (savedTask D w task i)
      then patchTasks D rest task
             (w\<lparr>saveTask_calls := saveTask_calls w @ map (savedTask D w task) (pre @ [i])\<rparr>)
      else (Inl (SaveRejected i),
            w\<lparr>saveTask_calls := saveTask_calls w @ map (savedTask D w task) (pre @ [i])\<rparr>))"
proof -
  assume api: "getObsidianAPI w = Some api"
    and ok: "\<forall>j \<in> set pre. saveTask api (savedTask D w task j)"
    and stale: "getTask w i = None"
  let ?w' = "w\<lparr>saveTask_calls := saveTask_calls w @ map (savedTask D w task) pre\<rparr>"
  have api': "getObsidianAPI ?w' = Some api"
    using api by (simp add: getObsidianAPI_def)
  have pre: "patchTasks D (pre @ i # rest) task w = patchTasks D (i # rest) task ?w'"
    using api ok by (rule patchTasks_prefix_resolved)
  have sv: "savedTask D w task i =
     (if get_prop task ''scheduled'' = JStr D then task(''scheduled'' := None) else task)"
    using stale by (rule savedTask_stale)
  have step: "patchTasks D (i # rest) task ?w' =
     (if saveTask api (savedTask D w task i)
      then patchTasks D rest task
             (w\<lparr>saveTask_calls := saveTask_calls w @ map (savedTask D w task) (pre @ [i])\<rparr>)
      else (Inl (SaveRejected i),
            w\<lparr>saveTask_calls := saveTask_calls w @ map (savedTask D w task) (pre @ [i])\<rparr>))"
    using api'
    by (simp add: patchTasks_Cons_resolved patchTasks_Cons_rejected savedTask_calls_irrelevant)
  show ?thesis
    using sv pre step by simp
qed

theorem stale_id_still_written_witness:
  "getObsidianAPI (ex_world [ex_task ''a'' None None False None] (Some (ex_api ''z'')) None)
     = Some (ex_api ''z'') \<and>
   saveTask (ex_api ''z'')
     (savedTask ''DELETE'' (ex_world [ex_task ''a'' None None False None] (Some (ex_api ''z'')) None)
        ex_patch ''a'') \<and>
   getTask (ex_world [ex_task ''a'' None None False None] (Some (ex_api ''z'')) None) ''gone'' = None \<and>
   savedTask ''DELETE'' (ex_world [ex_task ''a'' None None False None] (Some (ex_api ''z'')) None)
     ex_patch ''gone'' = ex_patch \<and>
   saveTask (ex_api ''z'') ex_patch \<and>
   fst (patchTasks ''DELETE'' ([''a''] @ ''gone'' # []) ex_patch
     (ex_world [ex_task ''a'' None None False None] (Some (ex_api ''z'')) None)) = Inr () \<and>
   saved_ids (snd (patchTasks ''DELETE'' ([''a''] @ ''gone'' # []) ex_patch
     (ex_world [ex_task ''a'' None None False None] (Some (ex_api ''z'')) None)))
     = [JStr ''a'', JUndefined]"
proof -
  let ?w = "ex_world [ex_task ''a'' None None False None] (Some (ex_api ''z'')) None"
  have h1: "getObsidianAPI ?w = Some (ex_api ''z'')"
    by (simp add: getObsidianAPI_def ex_world_def ex_state_def)
  have a: "saveTask (ex_api ''z'') (savedTask ''DELETE'' ?w ex_patch ''a'')"
    by (simp add: ex_world_def ex_state_def ex_api_def savedTask_def getTask_def spread_def
        opt_field_def ex_task_def ex_patch_def get_prop_def)
  then have h2: "\<forall>j \<in> set [''a'']. saveTask (ex_api ''z'') (savedTask ''DELETE'' ?w ex_patch j)"
    by simp
  have h3: "getTask ?w ''gone'' = None"
    by (simp add: getTask_def ex_world_def ex_state_def ex_task_def)
  note st = stale_id_still_written [where D = "''DELETE''" and task = ex_patch and rest = "[]",
      OF h1 h2 h3]
  have sv: "savedTask ''DELETE'' ?w ex_patch ''gone'' = ex_patch"
    using st by (simp add: ex_patch_def get_prop_def)
  have ok: "saveTask (ex_api ''z'') ex_patch"
    by (simp add: ex_api_def ex_patch_def get_prop_def)
  from st have "patchTasks ''DELETE'' ([''a''] @ ''gone'' # []) ex_patch ?w =
      patchTasks ''DELETE'' [] ex_patch
        (?w\<lparr>saveTask_calls :=
             saveTask_calls ?w @ map (savedTask ''DELETE'' ?w ex_patch) ([''a''] @ [''gone''])\<rparr>)"
    by (simp only: sv ok if_True)
  then have "fst (patchTasks ''DELETE'' ([''a''] @ ''gone'' # []) ex_patch ?w) = Inr () \<and>
     saved_ids (snd (patchTasks ''DELETE'' ([''a''] @ ''gone'' # []) ex_patch ?w))
       = [JStr ''a'', JUndefined]"
    by (simp add: patchTasks_def getObsidianAPI_def ex_world_def ex_state_def ex_api_def
      savedTask_def getTask_def spread_def opt_field_def ex_task_def ex_patch_def
      get_prop_def saved_ids_def Let_def)
  with h1 a h3 sv ok show ?thesis
    by (intro conjI) simp_all
qed

section \<open>Cancelling a drag\<close>

text \<open>
  C7. A drag cancellation, by a drop outside any zone or by a cancel signal, sets
  \<open>dragData\<close> to \<open>null\<close> and changes nothing else. This holds of each of the
  two handlers in every state, and of a whole gesture from its start: after a gesture
  that is cancelled either way, the world is the pre-drag one with \<open>dragData\<close>
  \<open>null\<close>, so the task table equals its pre-drag snapshot and no call of
  \<open>saveTask\<close> or \<open>playComplete\<close> has been made, whatever the payload and
  whatever the resolution of a drop zone would do.
\<close>

theorem drag_cancel_clears_slot_only:
  "onDragCancel w = w\<lparr>store := (store w)\<lparr>dragData := None\<rparr>\<rparr> \<and>
   dragData (store (onDragCancel w)) = None \<and>
   tasks (store (onDragCancel w)) = tasks (store w) \<and>
   saveTask_calls (onDragCancel w) = saveTask_calls w \<and>
   playComplete_calls (onDragCancel w) = playComplete_calls w \<and>
   onDragEnd resolved None w = (Inr (), w\<lparr>store := (store w)\<lparr>dragData := None\<rparr>\<rparr>) \<and>
   DndContext_gesture resolved payload CancelSignal w
     = (Inr (), w\<lparr>store := (store w)\<lparr>dragData := None\<rparr>\<rparr>) \<and>
   DndContext_gesture resolved payload (Release None) w
     = (Inr (), w\<lparr>store := (store w)\<lparr>dragData := None\<rparr>\<rparr>) \<and>
   tasks (store (snd (DndContext_gesture resolved payload CancelSignal w))) = tasks (store w) \<and>
   tasks (store (snd (DndContext_gesture resolved payload (Release None) w))) = tasks (store w) \<and>
   saveTask_calls (snd (DndContext_gesture resolved payload CancelSignal w)) = saveTask_calls w \<and>
   saveTask_calls (snd (DndContext_gesture resolved payload (Release None) w)) = saveTask_calls w"
  by (simp add: onDragCancel_def onDragStart_def onDragEnd_def DndContext_gesture_def
      setters_set_def modify_def)

theorem drag_cancel_clears_slot_only_witness:
  "DndContext_gesture (\<lambda>zone w. patchTasks ''DELETE'' [''a''] zone w) ''task::a''
     (Release None)
     (ex_world [ex_task ''a'' (Some ''2024-01-01T09:00'') None False None] (Some (ex_api ''z'')) None)
     = (Inr (),
        ex_world [ex_task ''a'' (Some ''2024-01-01T09:00'') None False None] (Some (ex_api ''z'')) None) \<and>
   DndContext_gesture (\<lambda>zone w. patchTasks ''DELETE'' [''a''] zone w) ''task::a''
     CancelSignal
     (ex_world [ex_task ''a'' (Some ''2024-01-01T09:00'') None False None] (Some (ex_api ''z'')) None)
     = (Inr (),
        ex_world [ex_task ''a'' (Some ''2024-01-01T09:00'') None False None] (Some (ex_api ''z'')) None)"
proof -
  let ?w = "ex_world [ex_task ''a'' (Some ''2024-01-01T09:00'') None False None]
              (Some (ex_api ''z'')) None"
  have idle: "?w\<lparr>store := (store ?w)\<lparr>dragData := None\<rparr>\<rparr> = ?w"
    by (simp add: ex_world_def ex_state_def)
  from drag_cancel_clears_slot_only
    [where w = ?w and resolved = "\<lambda>zone w. patchTasks ''DELETE'' [''a''] zone w"
       and payload = "''task::a''"]
  show ?thesis
    by (simp only: idle)
qed

section \<open>Links and task rows of a heading-level group\<close>

text \<open>
  C9, as stated, fails. In a block that has no nominal scheduled time (\<open>scheduled\<close>
  is \<open>null\<close>), a task of kind "task" that carries a \<open>scheduled\<close> value is
  rendered as a link, though there is no time of the block that its value exceeds.
\<close>

theorem link_rule_counterexample:
  "rendersAsLink None (ex_task ''a'' (Some ''2024-01-01'') None False None) \<and>
   \<not> spec_rendersAsLink None (ex_task ''a'' (Some ''2024-01-01'') None False None) \<and>
   Group_heading None [ex_task ''a'' (Some ''2024-01-01'') None False None] = [TaskLink ''a'']"
  by (simp add: rendersAsLink_def spec_rendersAsLink_def Group_heading_def ex_task_def)

lemma Nil_less_iff: "[] < (x::string) \<longleftrightarrow> x \<noteq> []"
  by (cases x) simp_all

lemma rendersAsLink_iff:
  "rendersAsLink bs t \<longleftrightarrow> spec_rendersAsLink bs t \<or> (bs = None \<and> truthy (scheduled t))"
  by (auto simp: rendersAsLink_def spec_rendersAsLink_def truthy_def Nil_less_iff split: option.splits)

text \<open>
  C9, amended. In a heading-level group an item is rendered as a link exactly when its
  kind is "parent" or "link", or when it carries a (non-empty) \<open>scheduled\<close> value
  and either the block has no nominal scheduled time or the value is strictly greater
  than it; every other item is rendered as a task row. The elements come in the order of
  the items.
\<close>

theorem heading_rows:
  "(rendersAsLink block_scheduled t \<longleftrightarrow>
      task_type t = ''parent'' \<or> task_type t = ''link'' \<or>
      (\<exists>ts. scheduled t = Some ts \<and> ts \<noteq> [] \<and>
         (block_scheduled = None \<or> (\<exists>bs. block_scheduled = Some bs \<and> bs < ts)))) \<and>
   (i < length taskList \<longrightarrow>
      Group_heading block_scheduled taskList ! i =
        (if rendersAsLink block_scheduled (taskList ! i)
         then TaskLink (task_id (taskList ! i)) else Task (task_id (taskList ! i))))"
  by (auto simp: rendersAsLink_def Group_heading_def Nil_less_iff split: option.splits)

theorem heading_rows_witness:
  "(0::nat) < length [ex_task ''a'' (Some ''2024-01-01'') None False None] \<and>
   rendersAsLink None (ex_task ''a'' (Some ''2024-01-01'') None False None) \<and>
   Group_heading None [ex_task ''a'' (Some ''2024-01-01'') None False None] ! 0 = TaskLink ''a''"
  using heading_rows [where block_scheduled = None
      and t = "ex_task ''a'' (Some ''2024-01-01'') None False None" and i = 0
      and taskList = "[ex_task ''a'' (Some ''2024-01-01'') None False None]"]
  by (simp add: ex_task_def)

end
